theory Spec2Isabelle
  imports Main
begin

section \<open>Python strings\<close>

text \<open>
  A Python \<open>str\<close> is modelled as a \<open>string\<close> whose characters are the code points
  below 256 (ASCII and Latin-1); \<open>length\<close> is Python's \<open>len\<close> on such strings.
\<close>

definition isspace :: "char \<Rightarrow> bool" where
  \<comment> \<open>\<open>str.isspace\<close> on one character: TAB..CR, FS..US, space, NEL, NBSP.\<close>
  "isspace c = (let n = (of_char c :: nat) in
     (9 \<le> n \<and> n \<le> 13) \<or> (28 \<le> n \<and> n \<le> 32) \<or> n = 133 \<or> n = 160)"

definition strip :: "string \<Rightarrow> string" where
  \<comment> \<open>\<open>str.strip()\<close>: leading and trailing whitespace removed.\<close>
  "strip s = rev (dropWhile isspace (rev (dropWhile isspace s)))"

definition lower_char :: "char \<Rightarrow> char" where
  "lower_char c = (let n = (of_char c :: nat) in
     if (65 \<le> n \<and> n \<le> 90) \<or> (192 \<le> n \<and> n \<le> 222 \<and> n \<noteq> 215)
     then char_of (n + 32) else c)"

definition lower :: "string \<Rightarrow> string" where
  \<comment> \<open>\<open>str.lower()\<close>\<close>
  "lower s = map lower_char s"

fun str_nat :: "nat \<Rightarrow> string" where
  \<comment> \<open>\<open>str(n)\<close> of a non-negative \<open>int\<close>: its decimal digits.\<close>
  "str_nat n = (if n < 10 then [char_of (48 + n)]
                else str_nat (n div 10) @ [char_of (48 + n mod 10)])"

declare str_nat.simps [simp del]

definition zfill :: "nat \<Rightarrow> string \<Rightarrow> string" where
  \<comment> \<open>\<open>s.zfill(width)\<close>: zeros on the left, after a leading sign if there is one.\<close>
  "zfill width s =
     (if width \<le> length s then s
      else (case s of
              [] \<Rightarrow> replicate width (CHR ''0'')
            | c # r \<Rightarrow>
                if c = CHR ''+'' \<or> c = CHR ''-''
                then c # replicate (width - length s) (CHR ''0'') @ r
                else replicate (width - length s) (CHR ''0'') @ s))"

definition isdigit :: "char \<Rightarrow> bool" where
  \<comment> \<open>an ASCII decimal digit, the \<open>\d\<close> of the contact-number format\<close>
  "isdigit c = (48 \<le> (of_char c :: nat) \<and> (of_char c :: nat) \<le> 57)"

section \<open>Exceptions and the HTTP status of an outcome\<close>

text \<open>
  What can be raised: an \<open>HTTPException\<close>, any other instance of \<open>Exception\<close> (with
  its message), or an exception outside \<open>Exception\<close>, such as the
  \<open>asyncio.CancelledError\<close> that an \<open>await\<close> raises when the request's task is
  cancelled; the last kind derives from \<open>BaseException\<close> only.
\<close>

datatype exn =
    HTTPException (status_code: nat) (detail: string)
  | Exception (message: string)
  | BaseException (message: string)

fun isinstance_Exception :: "exn \<Rightarrow> bool" where
  \<comment> \<open>\<open>isinstance(e, Exception)\<close>: what a clause \<open>except Exception\<close> catches\<close>
  "isinstance_Exception (HTTPException _ _) = True"
| "isinstance_Exception (Exception _) = True"
| "isinstance_Exception (BaseException _) = False"

fun str_exn :: "exn \<Rightarrow> string" where
  \<comment> \<open>\<open>str(e)\<close>; for an \<open>HTTPException\<close> the status code, a colon and the detail\<close>
  "str_exn (HTTPException c d) = str_nat c @ '': '' @ d"
| "str_exn (Exception m) = m"
| "str_exn (BaseException m) = m"

definition except_Exception :: "string \<Rightarrow> exn \<Rightarrow> exn" where
  \<comment> \<open>What leaves a handler whose body raised \<open>e\<close> under the clause
      \<open>except Exception as e: raise HTTPException(status_code=500, detail=f"{prefix}{str(e)}")\<close>:
      the clause does not catch an exception outside \<open>Exception\<close>.\<close>
  "except_Exception prefix e =
     (if isinstance_Exception e then HTTPException 500 (prefix @ str_exn e) else e)"

fun http_status :: "exn + 'a \<Rightarrow> nat option" where
  \<comment> \<open>What the framework sends: 200 for a returned value, the status of an
      \<open>HTTPException\<close>, 500 for any other \<open>Exception\<close> that leaves the handler;
      no response comes from an exception outside \<open>Exception\<close>.\<close>
  "http_status (Inr _) = Some 200"
| "http_status (Inl (HTTPException c _)) = Some c"
| "http_status (Inl (Exception _)) = Some 500"
| "http_status (Inl (BaseException _)) = None"

section \<open>The document store\<close>

type_synonym datetime = nat

record newsletter_doc =
  nd_email :: string
  nd_source :: string
  nd_status :: string
  nd_subscribedAt :: datetime
  nd_createdAt :: datetime
  nd_updatedAt :: datetime

record contact_doc =
  cd_contactNumber :: string
  cd_name :: string
  cd_email :: string
  cd_phone :: "string option"
  cd_message :: string
  cd_artworkReference :: "string option"
  cd_status :: string
  cd_submittedAt :: datetime
  cd_createdAt :: datetime
  cd_updatedAt :: datetime

datatype id_value = ObjectId string | IdStr string

record painting =
  p_id :: id_value
  p_featured :: bool
  p_fields :: "(string \<times> string) list"

text \<open>
  The database \<open>db\<close>, the clock and the driver's failures are the state every handler
  runs in. \<open>faults\<close> lists what the coming driver calls do: \<open>Some e\<close> raises \<open>e\<close>,
  \<open>None\<close> (or an exhausted list) lets the call through; whatever makes the driver raise
  (the server unreachable, a command it cannot encode or the server refuses) is such a
  fault. \<open>clock\<close> gives the successive
  readings of \<open>datetime.utcnow()\<close> and \<open>reads\<close> counts the readings made.
\<close>

record world =
  newsletters :: "newsletter_doc list"
  contacts :: "contact_doc list"
  paintings :: "painting list"
  faults :: "exn option list"
  clock :: "nat \<Rightarrow> datetime"
  reads :: nat

definition utcnow :: "world \<Rightarrow> datetime \<times> world" where
  "utcnow w = (clock w (reads w), w\<lparr>reads := Suc (reads w)\<rparr>)"

definition driver_call :: "world \<Rightarrow> (exn + unit) \<times> world" where
  \<comment> \<open>one round trip to the server: it goes through or raises\<close>
  "driver_call w =
     (case faults w of
        [] \<Rightarrow> (Inr (), w)
      | None # fs \<Rightarrow> (Inr (), w\<lparr>faults := fs\<rparr>)
      | Some e # fs \<Rightarrow> (Inl e, w\<lparr>faults := fs\<rparr>))"

definition ping :: "world \<Rightarrow> (exn + unit) \<times> world" where
  \<comment> \<open>\<open>client.admin.command('ping')\<close>\<close>
  "ping w = driver_call w"



definition contacts_count_documents :: "world \<Rightarrow> (exn + nat) \<times> world" where
  \<comment> \<open>\<open>db.contacts.count_documents({})\<close>\<close>
  "contacts_count_documents w =
     (case driver_call w of
        (Inl x, w1) \<Rightarrow> (Inl x, w1)
      | (Inr _, w1) \<Rightarrow> (Inr (length (contacts w1)), w1))"

definition contacts_insert_one :: "contact_doc \<Rightarrow> world \<Rightarrow> (exn + unit) \<times> world" where
  "contacts_insert_one d w =
     (case driver_call w of
        (Inl x, w1) \<Rightarrow> (Inl x, w1)
      | (Inr _, w1) \<Rightarrow> (Inr (), w1\<lparr>contacts := contacts w1 @ [d]\<rparr>))"

record cursor =
  cur_query :: "(string \<times> bool) list"
  cur_limit :: int

definition matches :: "(string \<times> bool) list \<Rightarrow> painting \<Rightarrow> bool" where
  \<comment> \<open>a query dict selects the documents that have every listed field at the listed value;
      \<open>featured\<close> is the only boolean field of a painting\<close>
  "matches q p = list_all (\<lambda>(k, v). k = ''featured'' \<and> p_featured p = v) q"

definition paintings_find :: "(string \<times> bool) list \<Rightarrow> cursor" where
  \<comment> \<open>\<open>db.paintings.find(query)\<close>: a cursor, nothing is fetched yet; limit 0 is no limit\<close>
  "paintings_find q = \<lparr>cur_query = q, cur_limit = 0\<rparr>"

definition cursor_limit :: "int \<Rightarrow> cursor \<Rightarrow> cursor" where
  "cursor_limit n cur = cur\<lparr>cur_limit := n\<rparr>"

definition to_list :: "int \<Rightarrow> cursor \<Rightarrow> world \<Rightarrow> (exn + painting list) \<times> world" where
  \<comment> \<open>\<open>cursor.to_list(length=n)\<close>: a negative length is refused before anything is
      fetched; otherwise at most \<open>n\<close> of the documents the cursor yields\<close>
  "to_list n cur w =
     (if n < 0 then (Inl (Exception ''length must be non-negative''), w)
      else (case driver_call w of
              (Inl x, w1) \<Rightarrow> (Inl x, w1)
            | (Inr _, w1) \<Rightarrow>
                (let matched = filter (matches (cur_query cur)) (paintings w1);
                     limited = (if cur_limit cur = 0 then matched
                                else take (nat \<bar>cur_limit cur\<bar>) matched)
                 in (Inr (take (nat n) limited), w1))))"

section \<open>Request models and their validation\<close>

text \<open>
  A field of a JSON request body is absent, \<open>null\<close> or a string. \<open>EmailStr\<close> is the
  email library's check: it is a parameter \<open>E\<close> of the validation, giving the address
  the model stores, or \<open>None\<close> for a string that is not an address.
\<close>

datatype field = Absent | Null | Str string

datatype err_kind = Missing | StringType | TooShort | TooLong | NotAnEmail

type_synonym errors = "(string \<times> err_kind) list"

fun constrained_str :: "nat \<Rightarrow> nat \<Rightarrow> string \<Rightarrow> field \<Rightarrow> errors + string" where
  \<comment> \<open>\<open>str = Field(..., min_length=lo, max_length=hi)\<close>\<close>
  "constrained_str lo hi loc Absent = Inl [(loc, Missing)]"
| "constrained_str lo hi loc Null = Inl [(loc, StringType)]"
| "constrained_str lo hi loc (Str s) =
     (if length s < lo then Inl [(loc, TooShort)]
      else if hi < length s then Inl [(loc, TooLong)]
      else Inr s)"


fun optional_str :: "string \<Rightarrow> field \<Rightarrow> errors + string option" where
  \<comment> \<open>\<open>Optional[str] = None\<close>\<close>
  "optional_str loc Absent = Inr None"
| "optional_str loc Null = Inr None"
| "optional_str loc (Str s) = Inr (Some s)"


fun errors_of :: "errors + 'a \<Rightarrow> errors" where
  "errors_of (Inl es) = es"
| "errors_of (Inr _) = []"




record ContactSubmission =
  cs_name :: string
  cs_email :: string
  cs_phone :: "string option"
  cs_message :: string
  cs_artworkReference :: "string option"



section \<open>Responses\<close>

record health_payload =
  hp_status :: string
  hp_database :: string
  hp_error :: "string option"
  hp_timestamp :: datetime



record contact_data =
  cr_contactNumber :: string
  cr_submittedAt :: datetime

record ContactResponse =
  cr_success :: bool
  cr_message :: string
  cr_data :: "contact_data option"

record paintings_response =
  pr_success :: bool
  pr_data :: "painting list"

section \<open>Handlers\<close>

text \<open>
  Each handler is the source's \<open>try\<close> body (suffix \<open>_try\<close>) followed by its
  \<open>except\<close> clauses. A handler's result is the value it returns (\<open>Inr\<close>) or the
  exception that leaves it (\<open>Inl\<close>), with the state it leaves behind. The timestamps
  of a response are the \<open>datetime\<close> values the source renders with \<open>isoformat()\<close>.
\<close>

definition health_check :: "world \<Rightarrow> (exn + health_payload) \<times> world" where
  \<comment> \<open>the clause is \<open>except Exception as e\<close>: any other exception leaves the handler\<close>
  "health_check w =
     (case ping w of
        (Inr _, w1) \<Rightarrow>
          (case utcnow w1 of (t, w2) \<Rightarrow>
             (Inr \<lparr>hp_status = ''healthy'', hp_database = ''connected'',
                   hp_error = None, hp_timestamp = t\<rparr>, w2))
      | (Inl e, w1) \<Rightarrow>
          if isinstance_Exception e
          then (case utcnow w1 of (t, w2) \<Rightarrow>
                  (Inr \<lparr>hp_status = ''unhealthy'', hp_database = ''disconnected'',
                        hp_error = Some (str_exn e), hp_timestamp = t\<rparr>, w2))
          else (Inl e, w1))"



definition contact_number :: "nat \<Rightarrow> string" where
  \<comment> \<open>\<open>f"CNT{str(count + 1).zfill(6)}"\<close>\<close>
  "contact_number count = ''CNT'' @ zfill 6 (str_nat (count + 1))"

definition submit_contact_try ::
  "ContactSubmission \<Rightarrow> world \<Rightarrow> (exn + ContactResponse) \<times> world" where
  "submit_contact_try contact w =
     (case contacts_count_documents w of
        (Inl x, w1) \<Rightarrow> (Inl x, w1)
      | (Inr count, w1) \<Rightarrow>
          (case utcnow w1 of (t1, w2) \<Rightarrow>
           case utcnow w2 of (t2, w3) \<Rightarrow>
           case utcnow w3 of (t3, w4) \<Rightarrow>
             (let contact_doc =
                    \<lparr>cd_contactNumber = contact_number count,
                     cd_name = strip (cs_name contact),
                     cd_email = lower (cs_email contact),
                     cd_phone = (case cs_phone contact of
                                   None \<Rightarrow> None
                                 | Some ph \<Rightarrow> if ph = [] then None else Some (strip ph)),
                     cd_message = strip (cs_message contact),
                     cd_artworkReference = cs_artworkReference contact,
                     cd_status = ''new'',
                     cd_submittedAt = t1, cd_createdAt = t2, cd_updatedAt = t3\<rparr>
              in case contacts_insert_one contact_doc w4 of
                   (Inl x, w5) \<Rightarrow> (Inl x, w5)
                 | (Inr _, w5) \<Rightarrow>
                     (Inr \<lparr>cr_success = True,
                           cr_message = ''Thank you for contacting us! We'' @ [CHR 0x27]
                                          @ ''ll get back to you soon.'',
                           cr_data = Some \<lparr>cr_contactNumber = contact_number count,
                                           cr_submittedAt = cd_submittedAt contact_doc\<rparr>\<rparr>,
                      w5))))"

definition submit_contact ::
  "ContactSubmission \<Rightarrow> world \<Rightarrow> (exn + ContactResponse) \<times> world" where
  \<comment> \<open>the only clause is \<open>except Exception as e\<close>\<close>
  "submit_contact contact w =
     (case submit_contact_try contact w of
        (Inr r, w') \<Rightarrow> (Inr r, w')
      | (Inl e, w') \<Rightarrow> (Inl (except_Exception ''Failed to submit contact form: '' e), w'))"

definition str_id :: "id_value \<Rightarrow> string" where
  "str_id i = (case i of ObjectId h \<Rightarrow> h | IdStr s \<Rightarrow> s)"

definition stringify_id :: "painting \<Rightarrow> painting" where
  \<comment> \<open>\<open>painting["_id"] = str(painting["_id"])\<close>\<close>
  "stringify_id p = p\<lparr>p_id := IdStr (str_id (p_id p))\<rparr>"

definition get_paintings_try ::
  "bool option \<Rightarrow> int option \<Rightarrow> world \<Rightarrow> (exn + paintings_response) \<times> world" where
  "get_paintings_try featured limit w =
     (let query = (case featured of None \<Rightarrow> [] | Some b \<Rightarrow> [(''featured'', b)]);
          cursor0 = paintings_find query;
          cursor1 = (case limit of
                       None \<Rightarrow> cursor0
                     | Some n \<Rightarrow> if n \<noteq> 0 then cursor_limit n cursor0 else cursor0);
          len = (case limit of None \<Rightarrow> 100 | Some n \<Rightarrow> if n \<noteq> 0 then n else 100)
      in case to_list len cursor1 w of
           (Inl x, w1) \<Rightarrow> (Inl x, w1)
         | (Inr docs, w1) \<Rightarrow>
             (Inr \<lparr>pr_success = True,
                   pr_data = map stringify_id docs\<rparr>,
              w1))"

definition get_paintings ::
  "bool option \<Rightarrow> int option \<Rightarrow> world \<Rightarrow> (exn + paintings_response) \<times> world" where
  \<comment> \<open>the only clause is \<open>except Exception as e\<close>\<close>
  "get_paintings featured limit w =
     (case get_paintings_try featured limit w of
        (Inr r, w') \<Rightarrow> (Inr r, w')
      | (Inl e, w') \<Rightarrow> (Inl (except_Exception ''Failed to fetch paintings: '' e), w'))"

section \<open>Endpoints: validation by the framework, then the handler\<close>




section \<open>Sequences of requests and observations used in the statements\<close>

fun submit_all :: "ContactSubmission list \<Rightarrow> world \<Rightarrow> (exn + ContactResponse) list \<times> world" where
  \<comment> \<open>contact submissions handled one after the other\<close>
  "submit_all [] w = ([], w)"
| "submit_all (c # cs) w =
     (case submit_contact c w of (r, w1) \<Rightarrow>
      case submit_all cs w1 of (rs, w2) \<Rightarrow> (r # rs, w2))"

definition healthy :: "world \<Rightarrow> bool" where
  \<comment> \<open>no coming driver call raises\<close>
  "healthy w = list_all (\<lambda>f. f = None) (faults w)"

definition digits_value :: "string \<Rightarrow> nat" where
  \<comment> \<open>the number a string of decimal digits denotes\<close>
  "digits_value s = foldl (\<lambda>a c. 10 * a + (of_char c - 48)) 0 s"

definition numeric_suffix :: "string \<Rightarrow> nat" where
  \<comment> \<open>the number after the three letters of a contact number\<close>
  "numeric_suffix s = digits_value (drop 3 s)"

definition returned_number :: "exn + ContactResponse \<Rightarrow> string option" where
  \<comment> \<open>the \<open>contactNumber\<close> of a successful response\<close>
  "returned_number r = (case r of Inl _ \<Rightarrow> None | Inr resp \<Rightarrow> map_option cr_contactNumber (cr_data resp))"

definition next_fault :: "world \<Rightarrow> exn option" where
  \<comment> \<open>the exception the coming driver call raises, if it raises\<close>
  "next_fault w = (case faults w of Some e # _ \<Rightarrow> Some e | _ \<Rightarrow> None)"

definition advance :: "world \<Rightarrow> world" where
  \<comment> \<open>the state after one driver call, apart from what the call stores\<close>
  "advance w = w\<lparr>faults := tl (faults w)\<rparr>"

definition contact_doc_of :: "ContactSubmission \<Rightarrow> world \<Rightarrow> contact_doc" where
  \<comment> \<open>the \<open>contact_doc\<close> that \<open>submit_contact\<close> builds in state \<open>w\<close>\<close>
  "contact_doc_of c w =
     \<lparr>cd_contactNumber = contact_number (length (contacts w)),
      cd_name = strip (cs_name c),
      cd_email = lower (cs_email c),
      cd_phone = (case cs_phone c of None \<Rightarrow> None
                  | Some ph \<Rightarrow> if ph = [] then None else Some (strip ph)),
      cd_message = strip (cs_message c),
      cd_artworkReference = cs_artworkReference c,
      cd_status = ''new'',
      cd_submittedAt = clock w (reads w),
      cd_createdAt = clock w (Suc (reads w)),
      cd_updatedAt = clock w (Suc (Suc (reads w)))\<rparr>"


definition subscribed :: "string \<Rightarrow> world \<Rightarrow> bool" where
  \<comment> \<open>some newsletter document has exactly this email\<close>
  "subscribed e w = list_ex (\<lambda>d. nd_email d = e) (newsletters w)"

definition featured_query :: "bool option \<Rightarrow> (string \<times> bool) list" where
  \<comment> \<open>the \<open>query\<close> dict that \<open>get_paintings\<close> builds from its \<open>featured\<close> parameter\<close>
  "featured_query featured = (case featured of None \<Rightarrow> [] | Some b \<Rightarrow> [(''featured'', b)])"

subsection \<open>Sample inputs\<close>

definition empty_world :: world where
  "empty_world = \<lparr>newsletters = [], contacts = [], paintings = [], faults = [], clock = id, reads = 0\<rparr>"

definition sample_contact :: ContactSubmission where
  "sample_contact = \<lparr>cs_name = ''Al'', cs_email = ''Al@Example.com'', cs_phone = None,
         cs_message = ''Hello there'', cs_artworkReference = None\<rparr>"






definition sample_contact_doc :: contact_doc where
  "sample_contact_doc =
     \<lparr>cd_contactNumber = ''CNT000001'', cd_name = ''Bo'', cd_email = ''bo@example.com'',
      cd_phone = None, cd_message = ''An earlier message'', cd_artworkReference = None,
      cd_status = ''new'', cd_submittedAt = 0, cd_createdAt = 0, cd_updatedAt = 0\<rparr>"

definition busy_world :: world where
  \<comment> \<open>a store that holds 41 contact documents\<close>
  "busy_world = empty_world\<lparr>contacts := replicate 41 sample_contact_doc\<rparr>"

definition cancelled_world :: world where
  \<comment> \<open>the request's task is cancelled at the first \<open>await\<close>\<close>
  "cancelled_world = empty_world\<lparr>faults := [Some (BaseException ''CancelledError'')]\<rparr>"

definition sample_gallery :: world where
  "sample_gallery = empty_world\<lparr>paintings :=
     [\<lparr>p_id = ObjectId ''65f0a1'', p_featured = True, p_fields = [(''title'', ''Dawn'')]\<rparr>,
      \<lparr>p_id = ObjectId ''65f0a2'', p_featured = False, p_fields = [(''title'', ''Dusk'')]\<rparr>]\<rparr>"


section \<open>Decimal numerals and contact numbers\<close>

lemma str_nat_digits: "list_all isdigit (str_nat n)"
proof (induction n rule: str_nat.induct)
  case (1 n)
  show ?case
  proof (cases "n < 10")
    case True
    then show ?thesis by (simp add: str_nat.simps [of n] isdigit_def)
  next
    case False
    have "n mod 10 < 10" by simp
    then have "isdigit (char_of (48 + n mod 10))" by (simp add: isdigit_def)
    with False 1 show ?thesis by (simp add: str_nat.simps [of n])
  qed
qed

lemma str_nat_nonempty: "str_nat n \<noteq> []"
  by (simp add: str_nat.simps [of n])

lemma length_str_nat: "0 < k \<Longrightarrow> n < 10 ^ k \<Longrightarrow> length (str_nat n) \<le> k"
proof (induction n arbitrary: k rule: str_nat.induct)
  case (1 n)
  show ?case
  proof (cases "n < 10")
    case True
    with 1 show ?thesis by (simp add: str_nat.simps [of n])
  next
    case False
    from 1(2) obtain j where k: "k = Suc j" by (cases k) auto
    have j: "0 < j"
    proof (rule ccontr)
      assume "\<not> 0 < j"
      with k 1(3) False show False by simp
    qed
    from 1(3) k have "n div 10 < 10 ^ j" by (simp add: less_mult_imp_div_less mult.commute)
    with 1(1) False j have "length (str_nat (n div 10)) \<le> j" by simp
    with False k show ?thesis by (simp add: str_nat.simps [of n])
  qed
qed

lemma digits_value_snoc: "digits_value (s @ [c]) = 10 * digits_value s + (of_char c - 48)"
  by (simp add: digits_value_def)

lemma digits_value_str_nat: "digits_value (str_nat n) = n"
proof (induction n rule: str_nat.induct)
  case (1 n)
  show ?case
  proof (cases "n < 10")
    case True
    then show ?thesis by (simp add: str_nat.simps [of n] digits_value_def)
  next
    case False
    have "n mod 10 < 10" by simp
    with False 1 show ?thesis by (simp add: str_nat.simps [of n] digits_value_snoc)
  qed
qed

lemma digits_value_zeros: "digits_value (replicate k (CHR ''0'') @ s) = digits_value s"
proof -
  have "foldl (\<lambda>a c. 10 * a + (of_char c - 48)) 0 (replicate k (CHR ''0'')) = (0::nat)"
    by (induction k) simp_all
  then show ?thesis by (simp add: digits_value_def)
qed

lemma isdigit_not_sign: "isdigit c \<Longrightarrow> c \<noteq> CHR ''+'' \<and> c \<noteq> CHR ''-''"
  by (auto simp: isdigit_def)

lemma zfill_digits:
  assumes "list_all isdigit s" and "s \<noteq> []"
  shows "zfill k s = replicate (k - length s) (CHR ''0'') @ s"
proof -
  obtain c r where s: "s = c # r" using assms(2) by (cases s) auto
  with assms(1) have "isdigit c" by simp
  then have "c \<noteq> CHR ''+'' \<and> c \<noteq> CHR ''-''" by (rule isdigit_not_sign)
  with s show ?thesis by (simp add: zfill_def)
qed

lemma zfill_str_nat: "zfill k (str_nat n) = replicate (k - length (str_nat n)) (CHR ''0'') @ str_nat n"
  by (rule zfill_digits [OF str_nat_digits str_nat_nonempty])

lemma numeric_suffix_contact_number: "numeric_suffix (contact_number n) = n + 1"
  by (simp add: numeric_suffix_def contact_number_def zfill_str_nat digits_value_zeros digits_value_str_nat)

lemma isdigit_zero: "isdigit (CHR ''0'')"
  by (simp add: isdigit_def)

lemma contact_number_six_digits:
  assumes "n < 999999"
  shows "\<exists>ds. contact_number n = ''CNT'' @ ds \<and> length ds = 6 \<and> list_all isdigit ds"
proof -
  have "n + 1 < 10 ^ 6" using assms by simp
  then have len: "length (str_nat (n + 1)) \<le> 6" by (intro length_str_nat) simp_all
  have "list_all isdigit (zfill 6 (str_nat (n + 1)))"
    using str_nat_digits [of "n + 1"] by (auto simp: zfill_str_nat isdigit_zero list_all_iff)
  moreover have "length (zfill 6 (str_nat (n + 1))) = 6"
    using len by (simp add: zfill_str_nat)
  ultimately show ?thesis by (simp add: contact_number_def)
qed

section \<open>Driver calls and the contact handler\<close>

lemma driver_call_outcome:
  "driver_call w = (case next_fault w of Some e \<Rightarrow> Inl e | None \<Rightarrow> Inr (), advance w)"
  by (auto simp: driver_call_def next_fault_def advance_def split: list.splits option.splits)

lemma advance_frame [simp]:
  "newsletters (advance w) = newsletters w" "contacts (advance w) = contacts w"
  "paintings (advance w) = paintings w" "clock (advance w) = clock w" "reads (advance w) = reads w"
  "faults (advance w) = tl (faults w)"
  by (simp_all add: advance_def)

lemma next_fault_frame [simp]:
  "next_fault (w\<lparr>reads := k\<rparr>) = next_fault w"
  "next_fault (w\<lparr>contacts := cs\<rparr>) = next_fault w"
  "next_fault (w\<lparr>newsletters := ns\<rparr>) = next_fault w"
  by (simp_all add: next_fault_def)

lemma healthy_next_fault: "healthy w \<Longrightarrow> next_fault w = None"
  by (auto simp: healthy_def next_fault_def split: list.splits option.splits)

lemma healthy_advance: "healthy w \<Longrightarrow> healthy (advance w)"
  by (cases "faults w") (simp_all add: healthy_def advance_def)

lemma healthy_frame [simp]:
  "healthy (w\<lparr>reads := k\<rparr>) = healthy w"
  "healthy (w\<lparr>contacts := cs\<rparr>) = healthy w"
  "healthy (w\<lparr>newsletters := ns\<rparr>) = healthy w"
  by (simp_all add: healthy_def)

lemma contacts_count_documents_outcome:
  "contacts_count_documents w =
     (case next_fault w of Some e \<Rightarrow> Inl e | None \<Rightarrow> Inr (length (contacts w)), advance w)"
  by (simp add: contacts_count_documents_def driver_call_outcome split: option.splits)

lemma contacts_insert_one_outcome:
  "contacts_insert_one d w =
     (case next_fault w of
        Some e \<Rightarrow> (Inl e, advance w)
      | None \<Rightarrow> (Inr (), (advance w)\<lparr>contacts := contacts w @ [d]\<rparr>))"
  by (simp add: contacts_insert_one_def driver_call_outcome split: option.splits)

lemma submit_contact_try_count_fault:
  assumes "next_fault w = Some e"
  shows "submit_contact_try c w = (Inl e, advance w)"
  using assms by (simp add: submit_contact_try_def contacts_count_documents_outcome)

lemma submit_contact_try_insert_fault:
  assumes "next_fault w = None" and "next_fault (advance w) = Some e"
  shows "submit_contact_try c w = (Inl e, advance ((advance w)\<lparr>reads := reads w + 3\<rparr>))"
  using assms
  by (simp add: submit_contact_try_def contacts_count_documents_outcome
        contacts_insert_one_outcome utcnow_def)

lemma submit_contact_try_ok:
  assumes "next_fault w = None" and "next_fault (advance w) = None"
  shows "submit_contact_try c w =
     (Inr \<lparr>cr_success = True,
           cr_message = ''Thank you for contacting us! We'' @ [CHR 0x27] @ ''ll get back to you soon.'',
           cr_data = Some \<lparr>cr_contactNumber = contact_number (length (contacts w)),
                           cr_submittedAt = clock w (reads w)\<rparr>\<rparr>,
      (advance ((advance w)\<lparr>reads := reads w + 3\<rparr>))\<lparr>contacts := contacts w @ [contact_doc_of c w]\<rparr>)"
  using assms
  by (simp add: submit_contact_try_def contacts_count_documents_outcome
        contacts_insert_one_outcome utcnow_def contact_doc_of_def)


lemma submit_contact_Inr_healthy_calls:
  assumes "submit_contact c w = (Inr r, w')"
  shows "next_fault w = None \<and> next_fault (advance w) = None"
proof (cases "next_fault w")
  case (Some e)
  with assms show ?thesis
    by (simp add: submit_contact_def submit_contact_try_count_fault)
next
  case None
  show ?thesis
  proof (cases "next_fault (advance w)")
    case (Some e)
    with None assms show ?thesis
      by (simp add: submit_contact_def submit_contact_try_insert_fault)
  next
    case None': None
    with None show ?thesis by simp
  qed
qed

text \<open>
  C3. A contact submission that is accepted gets the number \<open>CNT\<close> followed by the
  count of contact documents before the insert, plus one, zero-padded to width 6: the
  number read after the three letters is that count plus one. The stored document carries
  the same number, and while the count is below 999999 the number is \<open>CNT\<close> followed by
  exactly six digits.
\<close>

theorem contact_number_format:
  assumes "submit_contact c w = (Inr r, w')"
  shows "\<exists>d doc. cr_data r = Some d
           \<and> cr_contactNumber d = ''CNT'' @ zfill 6 (str_nat (length (contacts w) + 1))
           \<and> numeric_suffix (cr_contactNumber d) = length (contacts w) + 1
           \<and> contacts w' = contacts w @ [doc]
           \<and> cd_contactNumber doc = cr_contactNumber d
           \<and> (length (contacts w) < 999999 \<longrightarrow>
                (\<exists>ds. cr_contactNumber d = ''CNT'' @ ds \<and> length ds = 6 \<and> list_all isdigit ds))"
proof -
  from assms have nf: "next_fault w = None" "next_fault (advance w) = None"
    using submit_contact_Inr_healthy_calls by blast+
  from assms have r: "cr_data r = Some \<lparr>cr_contactNumber = contact_number (length (contacts w)),
                           cr_submittedAt = clock w (reads w)\<rparr>"
    and w': "contacts w' = contacts w @ [contact_doc_of c w]"
    by (auto simp: submit_contact_def submit_contact_try_ok [OF nf])
  have num: "cd_contactNumber (contact_doc_of c w) = contact_number (length (contacts w))"
    by (simp add: contact_doc_of_def)
  have six: "length (contacts w) < 999999 \<longrightarrow>
     (\<exists>ds. contact_number (length (contacts w)) = ''CNT'' @ ds \<and> length ds = 6 \<and> list_all isdigit ds)"
    using contact_number_six_digits by blast
  have suffix: "numeric_suffix (contact_number (length (contacts w))) = length (contacts w) + 1"
    by (rule numeric_suffix_contact_number)
  have unfolded: "contact_number (length (contacts w))
      = ''CNT'' @ zfill 6 (str_nat (length (contacts w) + 1))"
    by (simp add: contact_number_def)
  show ?thesis
    using r w' num six suffix unfolded by simp
qed


lemma next_fault_busy_world: "next_fault busy_world = None" "next_fault (advance busy_world) = None"
  by (simp_all add: next_fault_def busy_world_def empty_world_def advance_def)

lemma length_contacts_busy_world: "length (contacts busy_world) = 41"
  by (simp add: busy_world_def)

lemma contact_number_0: "contact_number 0 = ''CNT000001''"
  by code_simp

lemma numeric_suffix_42: "numeric_suffix ''CNT000042'' = 42"
  by (simp add: numeric_suffix_def digits_value_def)

theorem contact_number_format_witness:
  "\<exists>r w'. submit_contact sample_contact busy_world = (Inr r, w')
     \<and> length (contacts busy_world) = 41
     \<and> map_option cr_contactNumber (cr_data r) = Some ''CNT000042''
     \<and> numeric_suffix ''CNT000042'' = 42
     \<and> map cd_contactNumber (drop 41 (contacts w')) = [''CNT000042'']"
proof -
  obtain r w' where eq: "submit_contact sample_contact busy_world = (Inr r, w')"
    by (simp add: submit_contact_def submit_contact_try_ok [OF next_fault_busy_world])
  from contact_number_format [OF eq] obtain d doc where
    d: "cr_data r = Some d"
    and n: "cr_contactNumber d = ''CNT'' @ zfill 6 (str_nat (length (contacts busy_world) + 1))"
    and s: "numeric_suffix (cr_contactNumber d) = length (contacts busy_world) + 1"
    and c: "contacts w' = contacts busy_world @ [doc]"
    and e: "cd_contactNumber doc = cr_contactNumber d"
    by blast
  have padded: "zfill 6 (str_nat 42) = ''000042''" by code_simp
  from n have n': "cr_contactNumber d = ''CNT000042''"
    by (simp add: length_contacts_busy_world padded)
  from d n' have a: "map_option cr_contactNumber (cr_data r) = Some ''CNT000042''" by simp
  from s n' have b: "numeric_suffix ''CNT000042'' = 42"
    by (simp add: length_contacts_busy_world)
  from c e n' have stored: "map cd_contactNumber (drop 41 (contacts w')) = [''CNT000042'']"
    by (simp add: length_contacts_busy_world)
  show ?thesis
    by (intro exI [of _ r] exI [of _ w'] conjI eq length_contacts_busy_world a b stored)
qed

lemma next_fault_Cons [simp]:
  "faults w = Some e # fs \<Longrightarrow> next_fault w = Some e"
  "faults w = None # fs \<Longrightarrow> next_fault w = None"
  "faults w = [] \<Longrightarrow> next_fault w = None"
  by (simp_all add: next_fault_def)

lemma next_fault_advance_Cons:
  "faults w = x # Some e # fs \<Longrightarrow> next_fault (advance w) = Some e"
  by (simp add: next_fault_def)

lemma next_fault_in_set: "next_fault w = Some e \<Longrightarrow> Some e \<in> set (take 2 (faults w))"
  by (auto simp: next_fault_def numeral_2_eq_2 split: list.splits option.splits)

lemma next_fault_advance_in_set:
  "next_fault (advance w) = Some e \<Longrightarrow> Some e \<in> set (take 2 (faults w))"
  by (cases "faults w"; cases "tl (faults w)")
     (auto simp: next_fault_def take_Suc_Cons numeral_2_eq_2 split: list.splits option.splits)

lemma submit_contact_count_fault:
  assumes "next_fault w = Some e"
  shows "fst (submit_contact c w) = Inl (except_Exception ''Failed to submit contact form: '' e)"
  using assms by (simp add: submit_contact_def submit_contact_try_count_fault)

lemma submit_contact_insert_fault:
  assumes "next_fault w = None" and "next_fault (advance w) = Some e"
  shows "fst (submit_contact c w) = Inl (except_Exception ''Failed to submit contact form: '' e)"
  using assms by (simp add: submit_contact_def submit_contact_try_insert_fault)

lemma submit_contact_Inl_cases:
  assumes "fst (submit_contact c w) = Inl x"
  shows "\<exists>e. (next_fault w = Some e \<or> next_fault w = None \<and> next_fault (advance w) = Some e)
             \<and> x = except_Exception ''Failed to submit contact form: '' e"
proof (cases "next_fault w")
  case (Some e)
  with assms show ?thesis
    by (simp add: submit_contact_def submit_contact_try_count_fault)
next
  case None
  show ?thesis
  proof (cases "next_fault (advance w)")
    case (Some e)
    with None assms show ?thesis
      by (simp add: submit_contact_def submit_contact_try_insert_fault)
  next
    case None': None
    with None assms show ?thesis
      by (simp add: submit_contact_def submit_contact_try_ok)
  qed
qed

lemma http_status_except_Exception:
  "isinstance_Exception e \<Longrightarrow> http_status (Inl (except_Exception prefix e)) = Some 500"
  by (simp add: except_Exception_def)

text \<open>
  C4, as stated, fails: the clause of the contact handler is \<open>except Exception\<close>, and an
  exception outside \<open>Exception\<close> raised in the body (the task cancelled at the count)
  leaves the handler as it is, not as an HTTP 500.
\<close>

theorem submit_contact_cancelled_counterexample:
  "fst (submit_contact sample_contact cancelled_world) = Inl (BaseException ''CancelledError'')
   \<and> http_status (fst (submit_contact sample_contact cancelled_world)) \<noteq> Some 500"
proof -
  have "next_fault cancelled_world = Some (BaseException ''CancelledError'')"
    by (simp add: next_fault_def cancelled_world_def)
  then have "fst (submit_contact sample_contact cancelled_world)
      = Inl (BaseException ''CancelledError'')"
    by (simp add: submit_contact_count_fault except_Exception_def)
  then show ?thesis by simp
qed

text \<open>
  C4, amended. Every instance of \<open>Exception\<close> raised in the body of the contact handler
  is caught and leaves the handler as an HTTP 500 whose detail is
  \<open>Failed to submit contact form: \<close> followed by the exception's message: whether the count
  raises or the insert raises, and whatever the kind (an \<open>HTTPException\<close> with a status of
  its own included). An exception outside \<open>Exception\<close> is not caught and leaves the
  handler unchanged. Every error of the handler is one of these two.
\<close>

theorem submit_contact_exception_500:
  "(faults w = Some e # fs \<and> isinstance_Exception e \<longrightarrow>
      fst (submit_contact c w)
        = Inl (HTTPException 500 (''Failed to submit contact form: '' @ str_exn e)))
   \<and> (faults w = None # Some e # fs \<and> isinstance_Exception e \<longrightarrow>
      fst (submit_contact c w)
        = Inl (HTTPException 500 (''Failed to submit contact form: '' @ str_exn e)))
   \<and> (faults w = Some e # fs \<and> \<not> isinstance_Exception e \<longrightarrow>
      fst (submit_contact c w) = Inl e)
   \<and> (faults w = None # Some e # fs \<and> \<not> isinstance_Exception e \<longrightarrow>
      fst (submit_contact c w) = Inl e)
   \<and> (\<forall>x. fst (submit_contact c w) = Inl x \<longrightarrow>
        (\<exists>e'. Some e' \<in> set (take 2 (faults w))
           \<and> (isinstance_Exception e' \<longrightarrow>
                x = HTTPException 500 (''Failed to submit contact form: '' @ str_exn e')
                \<and> http_status (fst (submit_contact c w)) = Some 500)
           \<and> (\<not> isinstance_Exception e' \<longrightarrow> x = e')))"
proof (intro conjI impI allI)
  assume "faults w = Some e # fs \<and> isinstance_Exception e"
  then show "fst (submit_contact c w)
        = Inl (HTTPException 500 (''Failed to submit contact form: '' @ str_exn e))"
    by (simp add: submit_contact_count_fault except_Exception_def)
next
  assume f: "faults w = None # Some e # fs \<and> isinstance_Exception e"
  then have "next_fault w = None" "next_fault (advance w) = Some e"
    by (simp_all add: next_fault_advance_Cons)
  with f show "fst (submit_contact c w)
        = Inl (HTTPException 500 (''Failed to submit contact form: '' @ str_exn e))"
    by (simp add: submit_contact_insert_fault except_Exception_def)
next
  assume "faults w = Some e # fs \<and> \<not> isinstance_Exception e"
  then show "fst (submit_contact c w) = Inl e"
    by (simp add: submit_contact_count_fault except_Exception_def)
next
  assume f: "faults w = None # Some e # fs \<and> \<not> isinstance_Exception e"
  then have "next_fault w = None" "next_fault (advance w) = Some e"
    by (simp_all add: next_fault_advance_Cons)
  with f show "fst (submit_contact c w) = Inl e"
    by (simp add: submit_contact_insert_fault except_Exception_def)
next
  fix x assume x: "fst (submit_contact c w) = Inl x"
  from submit_contact_Inl_cases [OF x] obtain e' where
    e': "next_fault w = Some e' \<or> next_fault w = None \<and> next_fault (advance w) = Some e'"
    and xe: "x = except_Exception ''Failed to submit contact form: '' e'"
    by blast
  from e' have mem: "Some e' \<in> set (take 2 (faults w))"
    using next_fault_in_set [of w e'] next_fault_advance_in_set [of w e'] by blast
  have caught: "isinstance_Exception e' \<longrightarrow>
                x = HTTPException 500 (''Failed to submit contact form: '' @ str_exn e')
                \<and> http_status (fst (submit_contact c w)) = Some 500"
    using x xe by (simp add: except_Exception_def)
  have passed: "\<not> isinstance_Exception e' \<longrightarrow> x = e'"
    using xe by (simp add: except_Exception_def)
  from mem caught passed
  show "\<exists>e'. Some e' \<in> set (take 2 (faults w))
           \<and> (isinstance_Exception e' \<longrightarrow>
                x = HTTPException 500 (''Failed to submit contact form: '' @ str_exn e')
                \<and> http_status (fst (submit_contact c w)) = Some 500)
           \<and> (\<not> isinstance_Exception e' \<longrightarrow> x = e')"
    by (intro exI [of _ e'] conjI)
qed

lemma str_nat_409: "str_nat 409 = ''409''"
  by code_simp

theorem submit_contact_exception_500_witness:
  "fst (submit_contact sample_contact (empty_world\<lparr>faults := [Some (Exception ''connection refused'')]\<rparr>))
     = Inl (HTTPException 500 ''Failed to submit contact form: connection refused'')
   \<and> fst (submit_contact sample_contact
         (empty_world\<lparr>faults := [None, Some (HTTPException 409 ''conflict'')]\<rparr>))
     = Inl (HTTPException 500 ''Failed to submit contact form: 409: conflict'')
   \<and> fst (submit_contact sample_contact
         (empty_world\<lparr>faults := [Some (BaseException ''CancelledError'')]\<rparr>))
     = Inl (BaseException ''CancelledError'')
   \<and> fst (submit_contact sample_contact
         (empty_world\<lparr>faults := [None, Some (BaseException ''CancelledError'')]\<rparr>))
     = Inl (BaseException ''CancelledError'')"
proof -
  let ?w1 = "empty_world\<lparr>faults := [Some (Exception ''connection refused'')]\<rparr>"
  let ?w2 = "empty_world\<lparr>faults := [None, Some (HTTPException 409 ''conflict'')]\<rparr>"
  let ?w3 = "empty_world\<lparr>faults := [Some (BaseException ''CancelledError'')]\<rparr>"
  let ?w4 = "empty_world\<lparr>faults := [None, Some (BaseException ''CancelledError'')]\<rparr>"
  have f1: "faults ?w1 = Some (Exception ''connection refused'') # []
            \<and> isinstance_Exception (Exception ''connection refused'')" by simp
  have f2: "faults ?w2 = None # Some (HTTPException 409 ''conflict'') # []
            \<and> isinstance_Exception (HTTPException 409 ''conflict'')" by simp
  have f3: "faults ?w3 = Some (BaseException ''CancelledError'') # []
            \<and> \<not> isinstance_Exception (BaseException ''CancelledError'')" by simp
  have f4: "faults ?w4 = None # Some (BaseException ''CancelledError'') # []
            \<and> \<not> isinstance_Exception (BaseException ''CancelledError'')" by simp
  note t1 = submit_contact_exception_500 [of ?w1 "Exception ''connection refused''" "[]" sample_contact]
  note t2 = submit_contact_exception_500 [of ?w2 "HTTPException 409 ''conflict''" "[]" sample_contact]
  note t3 = submit_contact_exception_500 [of ?w3 "BaseException ''CancelledError''" "[]" sample_contact]
  note t4 = submit_contact_exception_500 [of ?w4 "BaseException ''CancelledError''" "[]" sample_contact]
  from t1 [THEN conjunct1, THEN mp, OF f1]
  have a: "fst (submit_contact sample_contact ?w1)
     = Inl (HTTPException 500 ''Failed to submit contact form: connection refused'')"
    by (simp only: str_exn.simps append.simps)
  from t2 [THEN conjunct2, THEN conjunct1, THEN mp, OF f2]
  have b: "fst (submit_contact sample_contact ?w2)
     = Inl (HTTPException 500 ''Failed to submit contact form: 409: conflict'')"
    by (simp only: str_exn.simps str_nat_409 append.simps)
  from t3 [THEN conjunct2, THEN conjunct2, THEN conjunct1, THEN mp, OF f3]
  have c: "fst (submit_contact sample_contact ?w3) = Inl (BaseException ''CancelledError'')" .
  from t4 [THEN conjunct2, THEN conjunct2, THEN conjunct2, THEN conjunct1, THEN mp, OF f4]
  have d: "fst (submit_contact sample_contact ?w4) = Inl (BaseException ''CancelledError'')" .
  from a b c d show ?thesis by (intro conjI)
qed

lemma submit_contact_healthy:
  assumes "healthy w"
  shows "\<exists>r w1. submit_contact c w = (Inr r, w1) \<and> healthy w1
           \<and> contacts w1 = contacts w @ [contact_doc_of c w]
           \<and> returned_number (Inr r) = Some (contact_number (length (contacts w)))"
proof -
  from assms have h1: "healthy (advance w)" by (rule healthy_advance)
  then have h2: "healthy (advance ((advance w)\<lparr>reads := reads w + 3\<rparr>))"
    by (intro healthy_advance) simp
  from assms h1 have nf: "next_fault w = None" "next_fault (advance w) = None"
    by (simp_all add: healthy_next_fault)
  show ?thesis
    using h2 by (simp add: submit_contact_def submit_contact_try_ok [OF nf] returned_number_def)
qed

lemma submit_all_healthy:
  assumes "healthy w"
  shows "map returned_number (fst (submit_all cs w))
           = map (\<lambda>k. Some (contact_number k)) [length (contacts w) ..< length (contacts w) + length cs]
         \<and> length (contacts (snd (submit_all cs w))) = length (contacts w) + length cs"
  using assms
proof (induction cs arbitrary: w)
  case Nil
  then show ?case by simp
next
  case (Cons c cs)
  from submit_contact_healthy [OF Cons.prems, of c] obtain r w1 where
    eq: "submit_contact c w = (Inr r, w1)" and h: "healthy w1"
    and cs1: "contacts w1 = contacts w @ [contact_doc_of c w]"
    and rn: "returned_number (Inr r) = Some (contact_number (length (contacts w)))"
    by blast
  from cs1 have len: "length (contacts w1) = Suc (length (contacts w))" by simp
  from Cons.IH [OF h] len have
    ih1: "map returned_number (fst (submit_all cs w1))
           = map (\<lambda>k. Some (contact_number k))
               [Suc (length (contacts w)) ..< Suc (length (contacts w)) + length cs]"
    and ih2: "length (contacts (snd (submit_all cs w1))) = Suc (length (contacts w)) + length cs"
    by simp_all
  have upt: "[length (contacts w) ..< length (contacts w) + length (c # cs)]
      = length (contacts w) # [Suc (length (contacts w)) ..< Suc (length (contacts w)) + length cs]"
    by (subst upt_rec) simp
  show ?case
    using eq rn ih1 ih2 unfolding upt
    by (simp add: split_beta)
qed

text \<open>
  C9. Contact submissions handled one after the other, with the store working, get
  increasing numbers: from a count \<open>C\<close> of contact documents, \<open>N\<close> submissions return the
  numbers whose numeric suffixes are \<open>C+1, ..., C+N\<close>, and each inserts one document.
\<close>

theorem sequential_contact_numbers:
  assumes "healthy w"
  shows "map returned_number (fst (submit_all cs w))
           = map (\<lambda>k. Some (''CNT'' @ zfill 6 (str_nat k)))
               [length (contacts w) + 1 ..< length (contacts w) + length cs + 1]
         \<and> map (map_option numeric_suffix \<circ> returned_number) (fst (submit_all cs w))
           = map Some [length (contacts w) + 1 ..< length (contacts w) + length cs + 1]
         \<and> length (contacts (snd (submit_all cs w))) = length (contacts w) + length cs"
proof -
  let ?C = "length (contacts w)"
  note h = submit_all_healthy [OF assms, of cs]
  have shift: "[?C + 1 ..< ?C + length cs + 1] = map Suc [?C ..< ?C + length cs]"
    by (simp add: map_Suc_upt)
  from h have a: "map returned_number (fst (submit_all cs w))
           = map (\<lambda>k. Some (''CNT'' @ zfill 6 (str_nat k))) [?C + 1 ..< ?C + length cs + 1]"
    unfolding shift by (simp add: contact_number_def o_def)
  from h have "map (map_option numeric_suffix \<circ> returned_number) (fst (submit_all cs w))
           = map (map_option numeric_suffix) (map (\<lambda>k. Some (contact_number k)) [?C ..< ?C + length cs])"
    by (simp only: map_map [symmetric])
  then have b: "map (map_option numeric_suffix \<circ> returned_number) (fst (submit_all cs w))
           = map Some [?C + 1 ..< ?C + length cs + 1]"
    unfolding shift by (simp add: numeric_suffix_contact_number o_def)
  from a b h show ?thesis by simp
qed

lemma healthy_empty_world: "healthy empty_world"
  by (simp add: healthy_def empty_world_def)

lemma padded_1_2: "zfill 6 (str_nat 1) = ''000001''" "zfill 6 (str_nat 2) = ''000002''"
  by code_simp+

theorem sequential_contact_numbers_witness:
  "healthy empty_world
   \<and> map returned_number (fst (submit_all [sample_contact, sample_contact] empty_world))
       = [Some ''CNT000001'', Some ''CNT000002'']
   \<and> map (map_option numeric_suffix \<circ> returned_number)
         (fst (submit_all [sample_contact, sample_contact] empty_world)) = [Some 1, Some 2]"
proof -
  have c: "length (contacts empty_world) = 0" by (simp add: empty_world_def)
  have u: "[0 + 1 ..< 0 + length [sample_contact, sample_contact] + 1] = [1, 2::nat]"
    by (simp add: upt_rec)
  note t = sequential_contact_numbers [OF healthy_empty_world, of "[sample_contact, sample_contact]"]
  from t [THEN conjunct1] have a:
    "map returned_number (fst (submit_all [sample_contact, sample_contact] empty_world))
       = [Some ''CNT000001'', Some ''CNT000002'']"
    unfolding c u by (simp only: list.map padded_1_2 append.simps)
  from t [THEN conjunct2, THEN conjunct1] have b:
    "map (map_option numeric_suffix \<circ> returned_number)
         (fst (submit_all [sample_contact, sample_contact] empty_world)) = [Some 1, Some 2]"
    unfolding c u by (simp only: list.map)
  from healthy_empty_world a b show ?thesis by (intro conjI)
qed

section \<open>The newsletter handler\<close>







lemma subscribed_frame [simp]:
  "subscribed e (advance w) = subscribed e w"
  "subscribed e (w\<lparr>reads := k\<rparr>) = subscribed e w"
  by (simp_all add: subscribed_def)















section \<open>The health check\<close>

lemma ping_outcome:
  "ping w = (case next_fault w of Some e \<Rightarrow> Inl e | None \<Rightarrow> Inr (), advance w)"
  by (simp add: ping_def driver_call_outcome)

lemma next_fault_cancelled_world:
  "next_fault cancelled_world = Some (BaseException ''CancelledError'')"
  by (simp add: next_fault_def cancelled_world_def)

text \<open>
  C5, as stated, fails: the clause of the health check is \<open>except Exception\<close>, and an
  exception outside \<open>Exception\<close> raised at the probe (the task cancelled at the
  \<open>await\<close>) leaves the handler; no payload is returned.
\<close>

theorem health_check_cancelled_counterexample:
  "fst (health_check cancelled_world) = Inl (BaseException ''CancelledError'')"
  by (simp add: health_check_def ping_outcome next_fault_cancelled_world)

text \<open>
  C5, amended. The health check lets no instance of \<open>Exception\<close> out, and then the
  response is an HTTP 200: when the probe succeeds the payload says \<open>healthy\<close> and
  \<open>connected\<close>; when the probe raises an instance of \<open>Exception\<close>, the payload says
  \<open>unhealthy\<close> and \<open>disconnected\<close> and its error field is the exception's message.
  An exception outside \<open>Exception\<close> raised at the probe is not caught and leaves the
  handler.
\<close>

theorem health_check_200:
  "(fst (ping w) = Inr () \<longrightarrow>
      (\<exists>p. fst (health_check w) = Inr p
         \<and> http_status (fst (health_check w)) = Some 200
         \<and> hp_status p = ''healthy'' \<and> hp_database p = ''connected'' \<and> hp_error p = None))
   \<and> (\<forall>e. fst (ping w) = Inl e \<and> isinstance_Exception e \<longrightarrow>
      (\<exists>p. fst (health_check w) = Inr p
         \<and> http_status (fst (health_check w)) = Some 200
         \<and> hp_status p = ''unhealthy'' \<and> hp_database p = ''disconnected''
         \<and> hp_error p = Some (str_exn e)))
   \<and> (\<forall>e. fst (ping w) = Inl e \<and> \<not> isinstance_Exception e \<longrightarrow>
      fst (health_check w) = Inl e)"
proof (cases "next_fault w")
  case None
  then show ?thesis
    by (simp add: health_check_def ping_outcome utcnow_def)
next
  case (Some e)
  then show ?thesis
    by (simp add: health_check_def ping_outcome utcnow_def)
qed

theorem health_check_200_witness:
  "fst (ping empty_world) = Inr ()
   \<and> (\<exists>p. fst (health_check empty_world) = Inr p
         \<and> http_status (fst (health_check empty_world)) = Some 200
         \<and> hp_status p = ''healthy'' \<and> hp_database p = ''connected'' \<and> hp_error p = None)
   \<and> fst (ping (empty_world\<lparr>faults := [Some (Exception ''timed out'')]\<rparr>))
        = Inl (Exception ''timed out'')
   \<and> (\<exists>p. fst (health_check (empty_world\<lparr>faults := [Some (Exception ''timed out'')]\<rparr>)) = Inr p
         \<and> http_status (fst (health_check (empty_world\<lparr>faults := [Some (Exception ''timed out'')]\<rparr>)))
             = Some 200
         \<and> hp_status p = ''unhealthy'' \<and> hp_database p = ''disconnected''
         \<and> hp_error p = Some ''timed out'')
   \<and> fst (ping cancelled_world) = Inl (BaseException ''CancelledError'')
   \<and> fst (health_check cancelled_world) = Inl (BaseException ''CancelledError'')"
proof -
  let ?w = "empty_world\<lparr>faults := [Some (Exception ''timed out'')]\<rparr>"
  have up: "fst (ping empty_world) = Inr ()"
    by (simp add: ping_outcome next_fault_def empty_world_def)
  have down: "fst (ping ?w) = Inl (Exception ''timed out'') \<and> isinstance_Exception (Exception ''timed out'')"
    by (simp add: ping_outcome next_fault_def)
  have gone: "fst (ping cancelled_world) = Inl (BaseException ''CancelledError'')
              \<and> \<not> isinstance_Exception (BaseException ''CancelledError'')"
    by (simp add: ping_outcome next_fault_cancelled_world)
  note a = health_check_200 [of empty_world, THEN conjunct1, THEN mp, OF up]
  from health_check_200 [of ?w, THEN conjunct2, THEN conjunct1, THEN spec, THEN mp, OF down]
  have b: "\<exists>p. fst (health_check ?w) = Inr p
         \<and> http_status (fst (health_check ?w)) = Some 200
         \<and> hp_status p = ''unhealthy'' \<and> hp_database p = ''disconnected''
         \<and> hp_error p = Some ''timed out''"
    by (simp only: str_exn.simps)
  note c = health_check_200 [of cancelled_world, THEN conjunct2, THEN conjunct2, THEN spec, THEN mp, OF gone]
  from up a down [THEN conjunct1] b gone [THEN conjunct1] c show ?thesis by (intro conjI)
qed

section \<open>The paintings handler\<close>

lemma to_list_negative:
  "n < 0 \<Longrightarrow> to_list n cur w = (Inl (Exception ''length must be non-negative''), w)"
  by (simp add: to_list_def)

lemma to_list_outcome:
  "0 \<le> n \<Longrightarrow> to_list n cur w =
     (case next_fault w of
        Some e \<Rightarrow> (Inl e, advance w)
      | None \<Rightarrow>
          (Inr (take (nat n)
                 (if cur_limit cur = 0 then filter (matches (cur_query cur)) (paintings w)
                  else take (nat \<bar>cur_limit cur\<bar>) (filter (matches (cur_query cur)) (paintings w)))),
           advance w))"
  by (simp add: to_list_def driver_call_outcome Let_def split: option.splits)

lemma get_paintings_no_limit:
  "get_paintings f None w =
     (case next_fault w of
        Some e \<Rightarrow> (Inl (except_Exception ''Failed to fetch paintings: '' e), advance w)
      | None \<Rightarrow>
          (Inr \<lparr>pr_success = True,
                pr_data = map stringify_id
                            (take 100 (filter (matches (featured_query f)) (paintings w)))\<rparr>,
           advance w))"
  by (simp add: get_paintings_def get_paintings_try_def to_list_outcome paintings_find_def
        featured_query_def Let_def split: option.splits)

lemma get_paintings_zero: "get_paintings f (Some 0) w = get_paintings f None w"
  by (simp add: get_paintings_def get_paintings_try_def)

lemma get_paintings_positive:
  "0 < n \<Longrightarrow> get_paintings f (Some n) w =
     (case next_fault w of
        Some e \<Rightarrow> (Inl (except_Exception ''Failed to fetch paintings: '' e), advance w)
      | None \<Rightarrow>
          (Inr \<lparr>pr_success = True,
                pr_data = map stringify_id
                            (take (nat n) (filter (matches (featured_query f)) (paintings w)))\<rparr>,
           advance w))"
  by (simp add: get_paintings_def get_paintings_try_def to_list_outcome paintings_find_def
        cursor_limit_def featured_query_def Let_def split: option.splits)

lemma get_paintings_negative:
  "n < 0 \<Longrightarrow> get_paintings f (Some n) w =
     (Inl (HTTPException 500 ''Failed to fetch paintings: length must be non-negative''), w)"
  by (simp add: get_paintings_def get_paintings_try_def to_list_negative except_Exception_def)

lemma get_paintings_Inr:
  assumes "get_paintings f limit w = (Inr r, w')"
  shows "\<exists>k. pr_data r = map stringify_id (take k (filter (matches (featured_query f)) (paintings w)))
           \<and> (limit = None \<or> limit = Some 0 \<longrightarrow> k = 100)
           \<and> (\<forall>n. limit = Some n \<and> n \<noteq> 0 \<longrightarrow> 0 < n \<and> k = nat n)"
proof (cases limit)
  case None
  with assms show ?thesis
    by (cases "next_fault w") (auto simp: get_paintings_no_limit)
next
  case (Some n)
  consider "n = 0" | "0 < n" | "n < 0" by linarith
  then show ?thesis
  proof cases
    case 1
    with assms Some show ?thesis
      by (cases "next_fault w") (auto simp: get_paintings_zero get_paintings_no_limit)
  next
    case 2
    with assms Some show ?thesis
      by (cases "next_fault w") (auto simp: get_paintings_positive)
  next
    case 3
    with assms Some show ?thesis
      by (simp add: get_paintings_negative)
  qed
qed

lemma matches_featured: "matches (featured_query (Some b)) = (\<lambda>p. p_featured p = b)"
  by (rule ext) (simp add: matches_def featured_query_def)

lemma matches_no_filter: "matches (featured_query None) = (\<lambda>p. True)"
  by (rule ext) (simp add: matches_def featured_query_def)

lemma p_featured_stringify_id [simp]: "p_featured (stringify_id p) = p_featured p"
  by (simp add: stringify_id_def)
lemma healthy_sample_gallery: "healthy sample_gallery"
  by (simp add: healthy_def sample_gallery_def empty_world_def)

lemma next_fault_sample_gallery: "next_fault sample_gallery = None"
  by (rule healthy_next_fault [OF healthy_sample_gallery])

lemma paintings_sample_gallery:
  "paintings sample_gallery =
     [\<lparr>p_id = ObjectId ''65f0a1'', p_featured = True, p_fields = [(''title'', ''Dawn'')]\<rparr>,
      \<lparr>p_id = ObjectId ''65f0a2'', p_featured = False, p_fields = [(''title'', ''Dusk'')]\<rparr>]"
  by (simp add: sample_gallery_def)

lemma length_sample_gallery: "length (paintings sample_gallery) = 2"
  by (simp add: paintings_sample_gallery)

text \<open>
  C6, as stated, fails for a limit of 0: the limit is given, and both paintings of the
  sample collection come back.
\<close>

theorem paintings_limit_zero_counterexample:
  "fst (get_paintings None (Some 0) sample_gallery)
     = Inr \<lparr>pr_success = True, pr_data = map stringify_id (paintings sample_gallery)\<rparr>
   \<and> length (map stringify_id (paintings sample_gallery)) = 2"
  by (simp add: get_paintings_zero get_paintings_no_limit next_fault_sample_gallery
        length_sample_gallery matches_no_filter)

text \<open>
  C6, amended. The returned data has at most \<open>limit\<close> documents when a positive limit
  is given, and at most 100 when no limit is given or the limit is 0. A negative limit
  returns no data: the handler fails with an HTTP 500. With the store working, every
  other request does return data.
\<close>

theorem paintings_limit_bound:
  "(get_paintings f limit w = (Inr r, w') \<longrightarrow>
      (\<forall>n. limit = Some n \<and> n \<noteq> 0 \<longrightarrow> 0 < n \<and> int (length (pr_data r)) \<le> n)
      \<and> (limit = None \<or> limit = Some 0 \<longrightarrow> length (pr_data r) \<le> 100))
   \<and> (\<forall>n. limit = Some n \<and> n < 0 \<longrightarrow>
        fst (get_paintings f limit w)
          = Inl (HTTPException 500 ''Failed to fetch paintings: length must be non-negative''))
   \<and> (healthy w \<and> (\<forall>n. limit = Some n \<longrightarrow> 0 \<le> n) \<longrightarrow>
        (\<exists>r0. fst (get_paintings f limit w) = Inr r0))"
proof (intro conjI impI allI)
  fix n
  assume eq: "get_paintings f limit w = (Inr r, w')" and n: "limit = Some n \<and> n \<noteq> 0"
  from get_paintings_Inr [OF eq] n obtain k where
    d: "pr_data r = map stringify_id (take k (filter (matches (featured_query f)) (paintings w)))"
    and k: "0 < n" "k = nat n"
    by blast
  from k show "0 < n" by simp
  from d have "length (pr_data r) \<le> k" by simp
  with k show "int (length (pr_data r)) \<le> n" by simp
next
  assume eq: "get_paintings f limit w = (Inr r, w')" and l: "limit = None \<or> limit = Some 0"
  from get_paintings_Inr [OF eq] l obtain k where
    d: "pr_data r = map stringify_id (take k (filter (matches (featured_query f)) (paintings w)))"
    and k: "k = 100"
    by blast
  from d have "length (pr_data r) \<le> k" by simp
  with k show "length (pr_data r) \<le> 100" by simp
next
  fix n
  assume "limit = Some n \<and> n < 0"
  then show "fst (get_paintings f limit w)
          = Inl (HTTPException 500 ''Failed to fetch paintings: length must be non-negative'')"
    by (simp add: get_paintings_negative)
next
  assume a: "healthy w \<and> (\<forall>n. limit = Some n \<longrightarrow> 0 \<le> n)"
  then have nf: "next_fault w = None" by (simp add: healthy_next_fault)
  show "\<exists>r0. fst (get_paintings f limit w) = Inr r0"
  proof (cases limit)
    case None
    with nf show ?thesis by (simp add: get_paintings_no_limit)
  next
    case (Some n)
    with a have "n = 0 \<or> 0 < n" by auto
    with Some nf show ?thesis
      by (auto simp: get_paintings_zero get_paintings_no_limit get_paintings_positive)
  qed
qed

theorem paintings_limit_bound_witness:
  "(\<exists>r w'. get_paintings None (Some 1) sample_gallery = (Inr r, w')
        \<and> int (length (pr_data r)) \<le> 1)
   \<and> (\<exists>r w'. get_paintings None None sample_gallery = (Inr r, w')
        \<and> length (pr_data r) \<le> 100)
   \<and> fst (get_paintings None (Some (- 5)) sample_gallery)
        = Inl (HTTPException 500 ''Failed to fetch paintings: length must be non-negative'')
   \<and> healthy sample_gallery"
proof -
  obtain r w' where eq: "get_paintings None (Some 1) sample_gallery = (Inr r, w')"
    by (simp add: get_paintings_positive next_fault_sample_gallery)
  from paintings_limit_bound [of None "Some 1" sample_gallery r w', THEN conjunct1, THEN mp, OF eq]
  have l1: "int (length (pr_data r)) \<le> 1" by simp
  have a: "\<exists>r w'. get_paintings None (Some 1) sample_gallery = (Inr r, w')
        \<and> int (length (pr_data r)) \<le> 1"
    by (intro exI [of _ r] exI [of _ w'] conjI eq l1)
  obtain r2 w2 where eq2: "get_paintings None None sample_gallery = (Inr r2, w2)"
    by (simp add: get_paintings_no_limit next_fault_sample_gallery)
  from paintings_limit_bound [of None None sample_gallery r2 w2, THEN conjunct1, THEN mp, OF eq2]
  have l2: "length (pr_data r2) \<le> 100" by simp
  have b: "\<exists>r w'. get_paintings None None sample_gallery = (Inr r, w')
        \<and> length (pr_data r) \<le> 100"
    by (intro exI [of _ r2] exI [of _ w2] conjI eq2 l2)
  from paintings_limit_bound [of None "Some (- 5)" sample_gallery r w', THEN conjunct2, THEN conjunct1]
  have c: "fst (get_paintings None (Some (- 5)) sample_gallery)
        = Inl (HTTPException 500 ''Failed to fetch paintings: length must be non-negative'')"
    by simp
  from a b c healthy_sample_gallery show ?thesis by (intro conjI)
qed

text \<open>
  C7. When the \<open>featured\<close> parameter is given, every document returned has that value
  in its \<open>featured\<close> field (the data are the first documents of the collection that
  have it); when the parameter is absent nothing is filtered, the data are the first
  documents of the whole collection.
\<close>

theorem paintings_featured_filter:
  "(get_paintings (Some b) limit w = (Inr r, w') \<longrightarrow>
      (\<forall>p \<in> set (pr_data r). p_featured p = b)
      \<and> (\<exists>k. pr_data r = map stringify_id (take k (filter (\<lambda>p. p_featured p = b) (paintings w)))))
   \<and> (get_paintings None limit w = (Inr r0, w0') \<longrightarrow>
      (\<exists>k. pr_data r0 = map stringify_id (take k (paintings w))))"
proof (intro conjI impI)
  assume eq: "get_paintings (Some b) limit w = (Inr r, w')"
  from get_paintings_Inr [OF eq] obtain k where
    d: "pr_data r = map stringify_id (take k (filter (matches (featured_query (Some b))) (paintings w)))"
    by blast
  then have d': "pr_data r = map stringify_id (take k (filter (\<lambda>p. p_featured p = b) (paintings w)))"
    by (simp add: matches_featured)
  then show "\<exists>k. pr_data r = map stringify_id (take k (filter (\<lambda>p. p_featured p = b) (paintings w)))" ..
  show "\<forall>p \<in> set (pr_data r). p_featured p = b"
  proof
    fix p assume "p \<in> set (pr_data r)"
    with d' obtain q where q: "q \<in> set (take k (filter (\<lambda>p. p_featured p = b) (paintings w)))"
      and p: "p = stringify_id q"
      by auto
    from q have "q \<in> set (filter (\<lambda>p. p_featured p = b) (paintings w))" by (rule in_set_takeD)
    with p show "p_featured p = b" by simp
  qed
next
  assume eq: "get_paintings None limit w = (Inr r0, w0')"
  from get_paintings_Inr [OF eq] obtain k where
    "pr_data r0 = map stringify_id (take k (filter (matches (featured_query None)) (paintings w)))"
    by blast
  then have "pr_data r0 = map stringify_id (take k (paintings w))"
    by (simp add: matches_no_filter)
  then show "\<exists>k. pr_data r0 = map stringify_id (take k (paintings w))" ..
qed

theorem paintings_featured_filter_witness:
  "(\<exists>r w'. get_paintings (Some True) None sample_gallery = (Inr r, w')
        \<and> (\<forall>p \<in> set (pr_data r). p_featured p = True)
        \<and> map p_id (pr_data r) = [IdStr ''65f0a1''])
   \<and> (\<exists>r w'. get_paintings None None sample_gallery = (Inr r, w')
        \<and> map p_id (pr_data r) = [IdStr ''65f0a1'', IdStr ''65f0a2''])"
proof -
  obtain r w' where eq: "get_paintings (Some True) None sample_gallery = (Inr r, w')"
    by (simp add: get_paintings_no_limit next_fault_sample_gallery)
  obtain r0 w0' where eq0: "get_paintings None None sample_gallery = (Inr r0, w0')"
    by (simp add: get_paintings_no_limit next_fault_sample_gallery)
  note t = paintings_featured_filter [of True None sample_gallery r w' r0 w0']
  from t [THEN conjunct1, THEN mp, OF eq]
  have f: "\<forall>p \<in> set (pr_data r). p_featured p = True" by (rule conjunct1)
  from eq have ids: "map p_id (pr_data r) = [IdStr ''65f0a1'']"
    by (auto simp: get_paintings_no_limit next_fault_sample_gallery matches_featured
          paintings_sample_gallery stringify_id_def str_id_def)
  from t [THEN conjunct2, THEN mp, OF eq0] obtain k where
    "pr_data r0 = map stringify_id (take k (paintings sample_gallery))" ..
  from eq0 have ids0: "map p_id (pr_data r0) = [IdStr ''65f0a1'', IdStr ''65f0a2'']"
    by (auto simp: get_paintings_no_limit next_fault_sample_gallery matches_no_filter
          paintings_sample_gallery stringify_id_def str_id_def)
  have a: "\<exists>r w'. get_paintings (Some True) None sample_gallery = (Inr r, w')
        \<and> (\<forall>p \<in> set (pr_data r). p_featured p = True)
        \<and> map p_id (pr_data r) = [IdStr ''65f0a1'']"
    by (intro exI [of _ r] exI [of _ w'] conjI eq f ids)
  have b: "\<exists>r w'. get_paintings None None sample_gallery = (Inr r, w')
        \<and> map p_id (pr_data r) = [IdStr ''65f0a1'', IdStr ''65f0a2'']"
    by (intro exI [of _ r0] exI [of _ w0'] conjI eq0 ids0)
  from a b show ?thesis by (intro conjI)
qed

text \<open>
  C10. A limit of 0 is handled as no limit at all: the request does exactly what the
  request without a limit does, and with the store working it returns the first 100
  matching documents.
\<close>

theorem paintings_limit_zero_is_no_limit:
  "get_paintings f (Some 0) w = get_paintings f None w
   \<and> (healthy w \<longrightarrow>
        fst (get_paintings f (Some 0) w)
          = Inr \<lparr>pr_success = True,
                 pr_data = map stringify_id
                             (take 100 (filter (matches (featured_query f)) (paintings w)))\<rparr>)"
  by (simp add: get_paintings_zero get_paintings_no_limit healthy_next_fault)

theorem paintings_limit_zero_is_no_limit_witness:
  "healthy sample_gallery
   \<and> get_paintings None (Some 0) sample_gallery = get_paintings None None sample_gallery
   \<and> (\<exists>r. fst (get_paintings None (Some 0) sample_gallery) = Inr r \<and> length (pr_data r) = 2)"
proof -
  note t = paintings_limit_zero_is_no_limit [of None sample_gallery]
  from t [THEN conjunct2, THEN mp, OF healthy_sample_gallery]
  have "\<exists>r. fst (get_paintings None (Some 0) sample_gallery) = Inr r \<and> length (pr_data r) = 2"
    by (simp add: matches_no_filter length_sample_gallery)
  with healthy_sample_gallery t [THEN conjunct1] show ?thesis by (intro conjI)
qed

section \<open>Validation of the contact form\<close>

lemma optional_str_errors [simp]: "errors_of (optional_str loc f) = []"
  by (cases f) simp_all




lemma constrained_str_no_error:
  "(errors_of (constrained_str lo hi loc f) = []) =
     (\<exists>s. f = Str s \<and> lo \<le> length s \<and> length s \<le> hi)"
  by (cases f) auto












end
